theory Spec2Isabelle
  imports Main
begin

section \<open>Data model\<close>

text \<open>
  The notebook declares three pydantic models.  Each becomes a record with the
  fields of the class, in the order of the class.
\<close>

record Audience =
  age :: string
  attributes :: "string list"

record Idea =
  title :: string
  detail :: string
  style :: string
  procedure :: string

record Ideas =
  ideas :: "Idea list"

text \<open>
  Values as Python sees them after decoding JSON, and as the values of the keyword
  arguments: \<open>None\<close>, a bool, a number (kept as its literal), a \<open>str\<close>, a
  \<open>list\<close> and a \<open>dict\<close> with \<open>str\<close> keys (its items in insertion order).
\<close>

datatype json =
    JNull
  | JBool bool
  | JNum string
  | JStr string
  | JArr "json list"
  | JObj "(string \<times> json) list"

text \<open>
  The exceptions that can leave \<open>brainstorm_ideas\<close>: pydantic's
  \<open>ValidationError\<close>, whatever the client raises (with its message), and the bare
  \<open>Exception()\<close> of the last line of the function.
\<close>

datatype exn =
    ValidationError
  | TransportError string
  | Exception

section \<open>Validation against the declared models\<close>

text \<open>
  A field annotated \<open>str\<close> is required and accepts a \<open>str\<close> only (pydantic does not
  turn a number, a bool or \<open>None\<close> into a string).  The annotation carries no
  constraint on the length.
\<close>

definition str_field :: "(string \<times> json) list \<Rightarrow> string \<Rightarrow> exn + string" where
  "str_field fs k = (case map_of fs k of Some (JStr s) \<Rightarrow> Inr s | _ \<Rightarrow> Inl ValidationError)"

text \<open>\<open>List[T]\<close>: every element is validated; one failing element fails the list.\<close>

fun list_validate :: "(json \<Rightarrow> exn + 'a) \<Rightarrow> json list \<Rightarrow> exn + 'a list" where
  "list_validate f [] = Inr []"
| "list_validate f (x # xs) =
     (case f x of
        Inl e \<Rightarrow> Inl e
      | Inr y \<Rightarrow> (case list_validate f xs of Inl e \<Rightarrow> Inl e | Inr ys \<Rightarrow> Inr (y # ys)))"

text \<open>\<open>class Idea(BaseModel)\<close>: four required \<open>str\<close> fields; other keys are not looked at.\<close>

fun Idea_model_validate :: "json \<Rightarrow> exn + Idea" where
  "Idea_model_validate (JObj fs) =
     (case str_field fs ''title'' of Inl e \<Rightarrow> Inl e | Inr t \<Rightarrow>
      case str_field fs ''detail'' of Inl e \<Rightarrow> Inl e | Inr d \<Rightarrow>
      case str_field fs ''style'' of Inl e \<Rightarrow> Inl e | Inr s \<Rightarrow>
      case str_field fs ''procedure'' of Inl e \<Rightarrow> Inl e | Inr p \<Rightarrow>
        Inr \<lparr>title = t, detail = d, style = s, procedure = p\<rparr>)"
| "Idea_model_validate _ = Inl ValidationError"

text \<open>\<open>class Ideas(BaseModel)\<close>: one required field \<open>ideas: List[Idea]\<close>.\<close>

fun Ideas_model_validate :: "json \<Rightarrow> exn + Ideas" where
  "Ideas_model_validate (JObj fs) =
     (case map_of fs ''ideas'' of
        Some (JArr xs) \<Rightarrow>
          (case list_validate Idea_model_validate xs of
             Inl e \<Rightarrow> Inl e
           | Inr is \<Rightarrow> Inr \<lparr>ideas = is\<rparr>)
      | _ \<Rightarrow> Inl ValidationError)"
| "Ideas_model_validate _ = Inl ValidationError"

text \<open>\<open>class Audience(BaseModel)\<close>: \<open>age: str\<close> and \<open>attributes: List[str]\<close>.\<close>

fun str_validate :: "json \<Rightarrow> exn + string" where
  "str_validate (JStr s) = Inr s"
| "str_validate _ = Inl ValidationError"

definition Audience_model_validate :: "(string \<times> json) list \<Rightarrow> exn + Audience" where
  "Audience_model_validate kw =
     (case str_field kw ''age'' of Inl e \<Rightarrow> Inl e | Inr a \<Rightarrow>
      case map_of kw ''attributes'' of
        Some (JArr xs) \<Rightarrow>
          (case list_validate str_validate xs of
             Inl e \<Rightarrow> Inl e
           | Inr as \<Rightarrow> Inr \<lparr>age = a, attributes = as\<rparr>)
      | _ \<Rightarrow> Inl ValidationError)"

text \<open>\<open>audience.model_dump()\<close>, as the notebook's last cell calls the function.\<close>

definition Audience_model_dump :: "Audience \<Rightarrow> (string \<times> json) list" where
  "Audience_model_dump a =
     [(''age'', JStr (age a)), (''attributes'', JArr (map JStr (attributes a)))]"

section \<open>The client and the libraries the function calls\<close>

text \<open>
  One call \<open>client.create(messages=[...], model=...)\<close>: the messages as
  (role, content) pairs and the optional model name.
\<close>

record request =
  messages :: "(string \<times> string) list"
  model :: "string option"

text \<open>
  What the function takes from outside itself:
  \<^item> \<open>create\<close>: the value of \<open>client.create(...).choices[0].message.content\<close>, given
    the requests the client has served before and the present one: the exception's
    message when the expression raises, else the content (\<open>None\<close> or a text);
  \<^item> \<open>loads\<close>: the JSON decoder inside \<open>model_validate_json\<close>, \<open>None\<close> for a text
    that is not JSON;
  \<^item> \<open>dict_str\<close>: how an f-string renders the keyword arguments (\<open>str\<close> of a dict);
  \<^item> \<open>schema_str\<close>: how an f-string renders \<open>Ideas.model_json_schema()\<close>.
\<close>

record env =
  create :: "request list \<Rightarrow> request \<Rightarrow> string + string option"
  loads :: "string \<Rightarrow> json option"
  dict_str :: "(string \<times> json) list \<Rightarrow> string"
  schema_str :: string

text \<open>
  \<open>Ideas.model_validate_json(response)\<close>: \<open>None\<close> is not JSON input, a text that
  does not decode is invalid, and a decoded value is validated against \<open>Ideas\<close>.
\<close>

definition Ideas_model_validate_json :: "env \<Rightarrow> string option \<Rightarrow> exn + Ideas" where
  "Ideas_model_validate_json e response =
     (case response of
        None \<Rightarrow> Inl ValidationError
      | Some text \<Rightarrow>
          (case loads e text of
             None \<Rightarrow> Inl ValidationError
           | Some v \<Rightarrow> Ideas_model_validate v))"

text \<open>The two prompts, character for character; an f-string renders \<open>None\<close> as \<open>None\<close>.\<close>

definition newline :: char where
  "newline = CHR 0x0A"

definition brainstorm_request :: "env \<Rightarrow> (string \<times> json) list \<Rightarrow> request" where
  \<open>brainstorm_request e kw =
     \<lparr>messages =
        [(''user'',
          ''You are a master visual artist. Brainstorm a diverse set of ideas that emotionally resonate with the audience. Give each idea a title, specify the artistic style, a highly detailed description, and a procedure to produce it.''
          @ [newline] @ ''{"audience":'' @ dict_str e kw @ ''}'')],
      model = Some ''gpt-35''\<rparr>\<close>

definition content_str :: "string option \<Rightarrow> string" where
  "content_str c = (case c of None \<Rightarrow> ''None'' | Some t \<Rightarrow> t)"

definition extract_request :: "env \<Rightarrow> string option \<Rightarrow> request" where
  "extract_request e conversation =
     \<lparr>messages =
        [(''user'',
          ''You will return a JSON object according this json schema: '' @ schema_str e
          @ '' '' @ [newline, newline] @ '' Based on the following conversation:''
          @ content_str conversation
          @ '' '' @ [newline, newline] @ ''Return the JSON object only.'')],
      model = None\<rparr>"

section \<open>The function\<close>

text \<open>
  The state a call works on: the keyword arguments it was given, the local counter
  \<open>num_try\<close>, and the requests the client has received so far, oldest first.
\<close>

record state =
  kwargs :: "(string \<times> json) list"
  num_try :: int
  requests :: "request list"

definition client_create :: "env \<Rightarrow> request \<Rightarrow> state \<Rightarrow> (string + string option) \<times> state" where
  "client_create e req s = (create e (requests s) req, s\<lparr>requests := requests s @ [req]\<rparr>)"

text \<open>
  The \<open>while num_try < 3\<close> loop.  Its body requests, validates and returns on
  success; on failure \<open>except: pass\<close> falls through to the next test of the condition.
  Nothing in the body assigns \<open>num_try\<close>.  The loop may therefore not end: the first
  argument bounds the number of iterations that are run, and the result \<open>None\<close>
  says the loop was still running when the bound was reached.
\<close>

fun extract_loop :: "env \<Rightarrow> nat \<Rightarrow> string option \<Rightarrow> state \<Rightarrow> (exn + Ideas) option \<times> state" where
  "extract_loop e 0 conversation s =
     (if num_try s < 3 then (None, s) else (Some (Inl Exception), s))"
| "extract_loop e (Suc fuel) conversation s =
     (if num_try s < 3 then
        (case client_create e (extract_request e conversation) s of
           (Inl msg, s') \<Rightarrow> (Some (Inl (TransportError msg)), s')
         | (Inr response, s') \<Rightarrow>
             (case Ideas_model_validate_json e response of
                Inr result \<Rightarrow> (Some (Inr result), s')
              | Inl _ \<Rightarrow> extract_loop e fuel conversation s'))
      else (Some (Inl Exception), s))"

definition brainstorm_ideas :: "env \<Rightarrow> nat \<Rightarrow> state \<Rightarrow> (exn + Ideas) option \<times> state" where
  "brainstorm_ideas e fuel s =
     (case Audience_model_validate (kwargs s) of
        Inl err \<Rightarrow> (Some (Inl err), s)
      | Inr audience \<Rightarrow>
          (case client_create e (brainstorm_request e (kwargs s)) s of
             (Inl msg, s') \<Rightarrow> (Some (Inl (TransportError msg)), s')
           | (Inr conversation, s') \<Rightarrow>
               extract_loop e fuel conversation (s'\<lparr>num_try := 0\<rparr>)))"

section \<open>A JSON decoder and scripted clients, for running the function\<close>

text \<open>
  The theorems below hold for every decoder \<open>loads\<close> and every client \<open>create\<close>.
  To run the function on concrete response texts, \<open>json_loads\<close> decodes the JSON
  grammar of RFC 8259 over ASCII: objects, arrays, strings with the two-character
  escapes, numbers, \<open>true\<close>, \<open>false\<close>, \<open>null\<close>, with white space between tokens.
  It answers \<open>None\<close> for any other text, and also for a string that uses a
  \<open>\u\<close> escape or holds a raw control character.  It is not the decoder inside
  \<open>model_validate_json\<close>, which also reads \<open>\u\<close> escapes, \<open>NaN\<close> and \<open>Infinity\<close>
  and limits the nesting depth; the two agree on the scenario texts, which use none
  of these, and no theorem about an arbitrary \<open>loads\<close> depends on \<open>json_loads\<close>.
\<close>

definition is_ws :: "char \<Rightarrow> bool" where
  "is_ws c = (c = CHR '' '' \<or> c = CHR 0x09 \<or> c = CHR 0x0A \<or> c = CHR 0x0D)"

definition skip_ws :: "string \<Rightarrow> string" where
  "skip_ws cs = dropWhile is_ws cs"

definition is_digit :: "char \<Rightarrow> bool" where
  "is_digit c = (48 \<le> (of_char c :: nat) \<and> (of_char c :: nat) \<le> 57)"

definition unescape :: "char \<Rightarrow> char option" where
  \<open>unescape c =
     (if c = CHR ''"'' then Some (CHR ''"'')
      else if c = CHR 0x5C then Some (CHR 0x5C)
      else if c = CHR ''/'' then Some (CHR ''/'')
      else if c = CHR ''b'' then Some (CHR 0x08)
      else if c = CHR ''f'' then Some (CHR 0x0C)
      else if c = CHR ''n'' then Some (CHR 0x0A)
      else if c = CHR ''r'' then Some (CHR 0x0D)
      else if c = CHR ''t'' then Some (CHR 0x09)
      else None)\<close>

text \<open>The characters of a string after its opening quote, and the text after its closing quote.\<close>

fun string_body :: "bool \<Rightarrow> string \<Rightarrow> (string \<times> string) option" where
  "string_body esc [] = None"
| \<open>string_body esc (c # cs) =
     (if esc then
        (case unescape c of
           None \<Rightarrow> None
         | Some x \<Rightarrow> map_option (\<lambda>(s, r). (x # s, r)) (string_body False cs))
      else if c = CHR ''"'' then Some ([], cs)
      else if c = CHR 0x5C then string_body True cs
      else if (of_char c :: nat) < 32 then None
      else map_option (\<lambda>(s, r). (c # s, r)) (string_body False cs))\<close>

text \<open>A number: \<open>-?(0|[1-9][0-9]*)(.[0-9]+)?([eE][+-]?[0-9]+)?\<close>.\<close>

definition digits1 :: "string \<Rightarrow> string option" where
  "digits1 cs = (if takeWhile is_digit cs = [] then None else Some (dropWhile is_digit cs))"

definition number_int :: "string \<Rightarrow> string option" where
  "number_int cs =
     (case cs of
        [] \<Rightarrow> None
      | c # r \<Rightarrow> if c = CHR ''0'' then Some r else digits1 cs)"

definition number_frac :: "string \<Rightarrow> string option" where
  "number_frac cs =
     (case cs of
        [] \<Rightarrow> Some []
      | c # r \<Rightarrow> if c = CHR ''.'' then digits1 r else Some cs)"

definition number_exp :: "string \<Rightarrow> string option" where
  "number_exp cs =
     (case cs of
        [] \<Rightarrow> Some []
      | c # r \<Rightarrow>
          if c = CHR ''e'' \<or> c = CHR ''E'' then
            (case r of
               [] \<Rightarrow> None
             | d # r' \<Rightarrow> if d = CHR ''+'' \<or> d = CHR ''-'' then digits1 r' else digits1 r)
          else Some cs)"

definition number_end :: "string \<Rightarrow> string option" where
  "number_end cs =
     (case number_int (case cs of [] \<Rightarrow> [] | c # r \<Rightarrow> if c = CHR ''-'' then r else cs) of
        None \<Rightarrow> None
      | Some r1 \<Rightarrow> (case number_frac r1 of None \<Rightarrow> None | Some r2 \<Rightarrow> number_exp r2))"

text \<open>A Python dict keeps one value per key: a repeated key replaces the value in place.\<close>

fun dict_set :: "('k \<times> 'v) list \<Rightarrow> 'k \<Rightarrow> 'v \<Rightarrow> ('k \<times> 'v) list" where
  "dict_set [] k v = [(k, v)]"
| "dict_set ((k', v') # d) k v = (if k' = k then (k, v) # d else (k', v') # dict_set d k v)"

definition dict_of :: "('k \<times> 'v) list \<Rightarrow> ('k \<times> 'v) list" where
  "dict_of ms = foldl (\<lambda>d (k, v). dict_set d k v) [] ms"

text \<open>
  Recursive descent.  The first argument bounds the nesting and the number of elements
  still to read; \<open>json_loads\<close> starts it above the length of the text.
\<close>

fun parse_value :: "nat \<Rightarrow> string \<Rightarrow> (json \<times> string) option"
  and parse_elements :: "nat \<Rightarrow> string \<Rightarrow> (json list \<times> string) option"
  and parse_members :: "nat \<Rightarrow> string \<Rightarrow> ((string \<times> json) list \<times> string) option"
where
  "parse_value 0 cs = None"
| \<open>parse_value (Suc n) cs =
     (case skip_ws cs of
        [] \<Rightarrow> None
      | c # r \<Rightarrow>
          if c = CHR ''{'' then
            (case skip_ws r of
               [] \<Rightarrow> None
             | c' # r' \<Rightarrow>
                 if c' = CHR ''}'' then Some (JObj [], r')
                 else map_option (\<lambda>(ms, r''). (JObj (dict_of ms), r'')) (parse_members n r))
          else if c = CHR ''['' then
            (case skip_ws r of
               [] \<Rightarrow> None
             | c' # r' \<Rightarrow>
                 if c' = CHR '']'' then Some (JArr [], r')
                 else map_option (\<lambda>(xs, r''). (JArr xs, r'')) (parse_elements n r))
          else if c = CHR ''"'' then
            map_option (\<lambda>(s, r'). (JStr s, r')) (string_body False r)
          else if take 4 (c # r) = ''true'' then Some (JBool True, drop 4 (c # r))
          else if take 5 (c # r) = ''false'' then Some (JBool False, drop 5 (c # r))
          else if take 4 (c # r) = ''null'' then Some (JNull, drop 4 (c # r))
          else
            (case number_end (c # r) of
               None \<Rightarrow> None
             | Some r' \<Rightarrow> Some (JNum (take (length (c # r) - length r') (c # r)), r')))\<close>
| "parse_elements 0 cs = None"
| \<open>parse_elements (Suc n) cs =
     (case parse_value n cs of
        None \<Rightarrow> None
      | Some (v, r) \<Rightarrow>
          (case skip_ws r of
             [] \<Rightarrow> None
           | c # r' \<Rightarrow>
               if c = CHR '']'' then Some ([v], r')
               else if c = CHR '','' then
                 map_option (\<lambda>(vs, r''). (v # vs, r'')) (parse_elements n r')
               else None))\<close>
| "parse_members 0 cs = None"
| \<open>parse_members (Suc n) cs =
     (case skip_ws cs of
        [] \<Rightarrow> None
      | q # r0 \<Rightarrow>
          if q \<noteq> CHR ''"'' then None
          else
            (case string_body False r0 of
               None \<Rightarrow> None
             | Some (k, r1) \<Rightarrow>
                 (case skip_ws r1 of
                    [] \<Rightarrow> None
                  | c # r2 \<Rightarrow>
                      if c \<noteq> CHR '':'' then None
                      else
                        (case parse_value n r2 of
                           None \<Rightarrow> None
                         | Some (v, r3) \<Rightarrow>
                             (case skip_ws r3 of
                                [] \<Rightarrow> None
                              | c' # r4 \<Rightarrow>
                                  if c' = CHR ''}'' then Some ([(k, v)], r4)
                                  else if c' = CHR '','' then
                                    map_option (\<lambda>(ms, r5). ((k, v) # ms, r5)) (parse_members n r4)
                                  else None)))))\<close>

definition json_loads :: "string \<Rightarrow> json option" where
  "json_loads text =
     (case parse_value (Suc (length text)) text of
        None \<Rightarrow> None
      | Some (v, r) \<Rightarrow> if skip_ws r = [] then Some v else None)"

text \<open>
  A scripted client answers its \<open>i\<close>-th call with the \<open>i\<close>-th entry of a list, and
  every later call with a fixed answer, whatever the request says.
\<close>

definition scripted :: "(string + string option) list \<Rightarrow> (string + string option) \<Rightarrow>
    request list \<Rightarrow> request \<Rightarrow> string + string option" where
  "scripted answers rest log req =
     (if length log < length answers then answers ! length log else rest)"

definition mock_env :: "(string + string option) list \<Rightarrow> (string + string option) \<Rightarrow> env" where
  "mock_env answers rest =
     \<lparr>create = scripted answers rest, loads = json_loads,
      dict_str = (\<lambda>kw. ''{}''), schema_str = ''{}''\<rparr>"

text \<open>The audience of Scenario A, as the caller passes it, before any request.\<close>

definition scenario_state :: state where
  "scenario_state =
     \<lparr>kwargs = Audience_model_dump \<lparr>age = ''18-22'', attributes = [''energetic'', ''undergraduate'']\<rparr>,
      num_try = 0, requests = []\<rparr>"

text \<open>Response texts of the scenarios.\<close>

definition valid_text :: string where
  \<open>valid_text = ''{"ideas":[{"title":"T","detail":"D","style":"S","procedure":"P"}]}''\<close>

definition not_a_list_text :: string where
  \<open>not_a_list_text = ''{"ideas": "not-a-list"}''\<close>

definition empty_fields_text :: string where
  \<open>empty_fields_text = ''{"ideas":[{"title":"","detail":"","style":"","procedure":""}]}''\<close>

definition extra_fields_text :: string where
  \<open>extra_fields_text =
     ''{"note":1,"ideas":[{"title":"T","mood":null,"detail":"D","style":"S","procedure":"P"}],"more":[]}''\<close>

definition idea_TDSP :: Idea where
  "idea_TDSP = \<lparr>title = ''T'', detail = ''D'', style = ''S'', procedure = ''P''\<rparr>"

text \<open>Scenario A: prose, then the valid object on the first extraction.\<close>

definition scenarioA_env :: env where
  "scenarioA_env = mock_env [Inr (Some ''prose''), Inr (Some valid_text)] (Inl ''no further call expected'')"

text \<open>Scenario B: prose, then \<open>{"ideas": "not-a-list"}\<close> on every extraction.\<close>

definition scenarioB_env :: env where
  "scenarioB_env = mock_env [Inr (Some ''prose'')] (Inr (Some not_a_list_text))"

text \<open>Scenario C: the brainstorm call raises.\<close>

definition scenarioC_env :: env where
  "scenarioC_env = mock_env [Inl ''connection error''] (Inl ''no further call expected'')"

text \<open>Early success: an invalid object on the first extraction, the valid one on the second.\<close>

definition early_success_env :: env where
  "early_success_env =
     mock_env [Inr (Some ''prose''), Inr (Some not_a_list_text), Inr (Some valid_text)]
       (Inl ''no further call expected'')"

text \<open>A client whose extraction answers are never JSON.\<close>

definition never_json_env :: env where
  "never_json_env = mock_env [Inr (Some ''prose'')] (Inr (Some ''Sure! Here are some ideas.''))"

text \<open>A client whose extraction answer has the four fields as empty strings.\<close>

definition empty_fields_env :: env where
  "empty_fields_env =
     mock_env [Inr (Some ''prose''), Inr (Some empty_fields_text)] (Inl ''no further call expected'')"

text \<open>A client whose extraction answer carries fields the models do not declare.\<close>

definition extra_fields_env :: env where
  "extra_fields_env =
     mock_env [Inr (Some ''prose''), Inr (Some extra_fields_text)] (Inl ''no further call expected'')"

section \<open>Notions used to state the properties\<close>

text \<open>
  A decoded value \<open>x\<close> carries the four fields of the idea \<open>i\<close>: it is an object whose
  members \<open>title\<close>, \<open>detail\<close>, \<open>style\<close> and \<open>procedure\<close> are present and are the
  strings of \<open>i\<close>.
\<close>

definition has_fields :: "json \<Rightarrow> Idea \<Rightarrow> bool" where
  "has_fields x i =
     (case x of
        JObj fs \<Rightarrow>
          map_of fs ''title'' = Some (JStr (title i)) \<and>
          map_of fs ''detail'' = Some (JStr (detail i)) \<and>
          map_of fs ''style'' = Some (JStr (style i)) \<and>
          map_of fs ''procedure'' = Some (JStr (procedure i))
      | _ \<Rightarrow> False)"

text \<open>The extraction request of a call, and the client's log after \<open>k\<close> extraction requests.\<close>

definition log_after :: "env \<Rightarrow> state \<Rightarrow> string option \<Rightarrow> nat \<Rightarrow> request list" where
  "log_after e s conversation k =
     requests s @ brainstorm_request e (kwargs s) # replicate k (extract_request e conversation)"

text \<open>An idea and a collection written back as values, one member per declared field.\<close>

definition Idea_model_dump :: "Idea \<Rightarrow> json" where
  "Idea_model_dump i =
     JObj [(''title'', JStr (title i)), (''detail'', JStr (detail i)),
           (''style'', JStr (style i)), (''procedure'', JStr (procedure i))]"

definition Ideas_model_dump :: "Ideas \<Rightarrow> json" where
  "Ideas_model_dump c = JObj [(''ideas'', JArr (map Idea_model_dump (ideas c)))]"

text \<open>A decoded value without the members that the models do not declare.\<close>

definition declared_only :: "string list \<Rightarrow> (string \<times> json) list \<Rightarrow> (string \<times> json) list" where
  "declared_only ks fs = filter (\<lambda>(k, v). k \<in> set ks) fs"

fun Idea_drop_extra :: "json \<Rightarrow> json" where
  "Idea_drop_extra (JObj fs) =
     JObj (declared_only [''title'', ''detail'', ''style'', ''procedure''] fs)"
| "Idea_drop_extra v = v"

fun items_drop_extra :: "json \<Rightarrow> json" where
  "items_drop_extra (JArr xs) = JArr (map Idea_drop_extra xs)"
| "items_drop_extra v = v"

fun Ideas_drop_extra :: "json \<Rightarrow> json" where
  "Ideas_drop_extra (JObj fs) =
     JObj (map (\<lambda>(k, v). (k, items_drop_extra v)) (declared_only [''ideas''] fs))"
| "Ideas_drop_extra v = v"

section \<open>Validation against the models\<close>

lemma Idea_validate_has_fields:
  "Idea_model_validate x = Inr i \<longleftrightarrow> has_fields x i"
proof (cases x)
  case (JObj fs)
  show ?thesis
  proof
    assume "Idea_model_validate x = Inr i"
    then show "has_fields x i"
      unfolding JObj has_fields_def
      by (auto simp: str_field_def split: sum.splits option.splits json.splits)
  next
    assume h: "has_fields x i"
    have "\<lparr>title = title i, detail = detail i, style = style i, procedure = procedure i\<rparr> = i"
      by simp
    with h show "Idea_model_validate x = Inr i"
      unfolding JObj has_fields_def by (simp add: str_field_def)
  qed
qed (simp_all add: has_fields_def)

lemma list_validate_all2:
  "list_validate Idea_model_validate xs = Inr ids \<longleftrightarrow> list_all2 has_fields xs ids"
proof (induction xs arbitrary: ids)
  case Nil
  show ?case by auto
next
  case (Cons x xs)
  show ?case
  proof (cases ids)
    case Nil
    then show ?thesis by (auto split: sum.splits)
  next
    case (Cons i ids')
    then show ?thesis
      using Cons.IH [of ids'] Idea_validate_has_fields [of x i]
      by (auto split: sum.splits)
  qed
qed

lemma Ideas_validate_iff:
  "Ideas_model_validate v = Inr c \<longleftrightarrow>
     (\<exists>members items. v = JObj members \<and> map_of members ''ideas'' = Some (JArr items) \<and>
        list_all2 has_fields items (ideas c))"
proof (cases v)
  case (JObj members)
  have c: "\<lparr>ideas = ideas c\<rparr> = c" by simp
  show ?thesis
  proof (cases "map_of members ''ideas''")
    case None
    then show ?thesis using JObj by simp
  next
    case (Some y)
    show ?thesis
    proof (cases y)
      case (JArr items)
      show ?thesis
      proof (cases "list_validate Idea_model_validate items")
        case (Inl err)
        then have "\<not> list_all2 has_fields items (ideas c)"
          using list_validate_all2 [of items "ideas c"] by simp
        then show ?thesis using JObj Some JArr Inl by simp
      next
        case (Inr ids)
        then have "list_all2 has_fields items (ideas c) \<longleftrightarrow> ids = ideas c"
          using list_validate_all2 [of items "ideas c"] by auto
        moreover have "\<lparr>ideas = ids\<rparr> = c \<longleftrightarrow> ids = ideas c"
          using c by (metis Ideas.select_convs(1))
        ultimately show ?thesis using JObj Some JArr Inr by simp
      qed
    qed (use JObj Some in simp_all)
  qed
qed simp_all

lemma validate_json_iff:
  "Ideas_model_validate_json e response = Inr c \<longleftrightarrow>
     (\<exists>text members items. response = Some text \<and> loads e text = Some (JObj members) \<and>
        map_of members ''ideas'' = Some (JArr items) \<and> list_all2 has_fields items (ideas c))"
  unfolding Ideas_model_validate_json_def
  by (auto simp: Ideas_validate_iff split: option.splits)

lemma has_fields_dump: "has_fields (Idea_model_dump i) i"
  by (simp add: has_fields_def Idea_model_dump_def)

lemma validate_dump: "Ideas_model_validate (Ideas_model_dump c) = Inr c"
  unfolding Ideas_validate_iff Ideas_model_dump_def
  by (simp add: list_all2_map1 has_fields_dump list_all2_same)

lemma list_validate_str_error:
  "list_validate str_validate xs = Inl err \<Longrightarrow> err = ValidationError"
proof (induction xs)
  case Nil
  then show ?case by simp
next
  case (Cons x xs)
  then show ?case by (cases x) (auto split: sum.splits)
qed

lemma Audience_validate_error:
  "Audience_model_validate kw = Inl err \<Longrightarrow> err = ValidationError"
  by (auto simp: Audience_model_validate_def str_field_def
        split: sum.splits option.splits json.splits dest: list_validate_str_error)

lemma list_validate_str_dump: "list_validate str_validate (map JStr xs) = Inr xs"
  by (induction xs) simp_all

lemma Audience_validate_dump: "Audience_model_validate (Audience_model_dump a) = Inr a"
  by (simp add: Audience_model_validate_def Audience_model_dump_def str_field_def
        list_validate_str_dump)

section \<open>Undeclared members\<close>

lemma map_of_declared_only:
  "map_of (declared_only ks fs) k = (if k \<in> set ks then map_of fs k else None)"
  by (induction fs) (auto simp: declared_only_def)

lemma str_field_declared_only:
  "k \<in> set ks \<Longrightarrow> str_field (declared_only ks fs) k = str_field fs k"
  by (simp add: str_field_def map_of_declared_only)

lemma Idea_drop_extra_validate:
  "Idea_model_validate (Idea_drop_extra x) = Idea_model_validate x"
  by (cases x) (simp_all add: str_field_declared_only cong: sum.case_cong)

lemma list_validate_drop_extra:
  "list_validate Idea_model_validate (map Idea_drop_extra xs) =
     list_validate Idea_model_validate xs"
  by (induction xs) (simp_all add: Idea_drop_extra_validate cong: sum.case_cong)

lemma Ideas_drop_extra_validate:
  "Ideas_model_validate (Ideas_drop_extra v) = Ideas_model_validate v"
proof (cases v)
  case (JObj fs)
  have look: "map_of (map (\<lambda>(k, v). (k, items_drop_extra v)) (declared_only [''ideas''] fs)) ''ideas''
      = map_option items_drop_extra (map_of fs ''ideas'')"
    by (simp add: map_of_map map_of_declared_only)
  show ?thesis
  proof (cases "map_of fs ''ideas''")
    case None
    with JObj look show ?thesis by simp
  next
    case (Some y)
    with JObj look show ?thesis
      by (cases y) (simp_all add: list_validate_drop_extra)
  qed
qed simp_all

section \<open>The loop\<close>

lemma extract_loop_frame:
  "kwargs (snd (extract_loop e fuel conv s)) = kwargs s \<and>
   num_try (snd (extract_loop e fuel conv s)) = num_try s"
  by (induction fuel arbitrary: s) (auto simp: client_create_def split: sum.splits)

lemma extract_loop_no_Exception:
  "num_try s < 3 \<Longrightarrow> fst (extract_loop e fuel conv s) \<noteq> Some (Inl Exception)"
  by (induction fuel arbitrary: s) (auto simp: client_create_def split: sum.splits)

lemma extract_loop_no_ValidationError:
  "fst (extract_loop e fuel conv s) \<noteq> Some (Inl ValidationError)"
  by (induction fuel arbitrary: s) (auto simp: client_create_def split: sum.splits)

lemma extract_loop_all_rejected:
  assumes "num_try s < 3"
    and "\<forall>j<n. \<exists>r. create e (requests s @ replicate j (extract_request e conv)) (extract_request e conv) = Inr r
            \<and> isl (Ideas_model_validate_json e r)"
  shows "extract_loop e n conv s =
           (None, s\<lparr>requests := requests s @ replicate n (extract_request e conv)\<rparr>)"
  using assms
proof (induction n arbitrary: s)
  case 0
  then show ?case by simp
next
  case (Suc n)
  let ?q = "extract_request e conv"
  let ?s' = "s\<lparr>requests := requests s @ [?q]\<rparr>"
  from Suc.prems(2) obtain r where r: "create e (requests s) ?q = Inr r"
      "isl (Ideas_model_validate_json e r)"
    by (metis append_Nil2 replicate_0 zero_less_Suc)
  have step: "extract_loop e (Suc n) conv s = extract_loop e n conv ?s'"
    using Suc.prems(1) r by (auto simp: client_create_def isl_def)
  have "\<forall>j<n. \<exists>r. create e (requests ?s' @ replicate j ?q) ?q = Inr r
            \<and> isl (Ideas_model_validate_json e r)"
  proof (intro allI impI)
    fix j assume "j < n"
    then have "Suc j < Suc n" by simp
    with Suc.prems(2) have "\<exists>r. create e (requests s @ replicate (Suc j) ?q) ?q = Inr r
            \<and> isl (Ideas_model_validate_json e r)"
      by blast
    then show "\<exists>r. create e (requests ?s' @ replicate j ?q) ?q = Inr r
            \<and> isl (Ideas_model_validate_json e r)"
      by simp
  qed
  moreover have "num_try ?s' < 3" using Suc.prems(1) by simp
  ultimately have "extract_loop e n conv ?s' =
      (None, ?s'\<lparr>requests := requests ?s' @ replicate n ?q\<rparr>)"
    by (rule Suc.IH [rotated])
  then show ?case unfolding step by simp
qed

lemma extract_loop_first_valid:
  assumes "num_try s < 3"
    and "\<forall>j<k. \<exists>r. create e (requests s @ replicate j (extract_request e conv)) (extract_request e conv) = Inr r
            \<and> isl (Ideas_model_validate_json e r)"
    and "create e (requests s @ replicate k (extract_request e conv)) (extract_request e conv) = Inr r"
    and "Ideas_model_validate_json e r = Inr c"
    and "k < fuel"
  shows "extract_loop e fuel conv s =
           (Some (Inr c), s\<lparr>requests := requests s @ replicate (Suc k) (extract_request e conv)\<rparr>)"
  using assms
proof (induction k arbitrary: s fuel)
  case 0
  then obtain m where "fuel = Suc m" by (cases fuel) auto
  with 0 show ?case by (simp add: client_create_def)
next
  case (Suc k)
  let ?q = "extract_request e conv"
  let ?s' = "s\<lparr>requests := requests s @ [?q]\<rparr>"
  from Suc.prems(5) obtain m where fuel: "fuel = Suc m" and m: "k < m" by (cases fuel) auto
  from Suc.prems(2) obtain r0 where r0: "create e (requests s) ?q = Inr r0"
      "isl (Ideas_model_validate_json e r0)"
    by (metis append_Nil2 replicate_0 zero_less_Suc)
  have step: "extract_loop e (Suc m) conv s = extract_loop e m conv ?s'"
    using Suc.prems(1) r0 by (auto simp: client_create_def isl_def)
  have shift: "requests ?s' @ replicate j ?q = requests s @ replicate (Suc j) ?q" for j
    by simp
  have a1: "num_try ?s' < 3" using Suc.prems(1) by simp
  have a2: "\<forall>j<k. \<exists>r. create e (requests ?s' @ replicate j ?q) ?q = Inr r
            \<and> isl (Ideas_model_validate_json e r)"
    unfolding shift using Suc.prems(2) by auto
  have a3: "create e (requests ?s' @ replicate k ?q) ?q = Inr r"
    unfolding shift using Suc.prems(3) .
  have "extract_loop e m conv ?s' =
      (Some (Inr c), ?s'\<lparr>requests := requests ?s' @ replicate (Suc k) ?q\<rparr>)"
    using Suc.IH [OF a1 a2 a3 Suc.prems(4) m] .
  then show ?case unfolding fuel step by simp
qed

lemma extract_loop_success:
  assumes "extract_loop e fuel conv s = (Some (Inr c), s')"
  shows "requests s' \<noteq> [] \<and> last (requests s') = extract_request e conv \<and>
         (\<exists>r. create e (butlast (requests s')) (extract_request e conv) = Inr r \<and>
              Ideas_model_validate_json e r = Inr c)"
  using assms
proof (induction fuel arbitrary: s)
  case 0
  then show ?case by (simp split: if_splits)
next
  case (Suc fuel)
  let ?q = "extract_request e conv"
  from Suc.prems have lt: "num_try s < 3" by (simp split: if_splits)
  show ?case
  proof (cases "create e (requests s) ?q")
    case (Inl msg)
    with Suc.prems lt show ?thesis by (simp add: client_create_def)
  next
    case (Inr r)
    show ?thesis
    proof (cases "Ideas_model_validate_json e r")
      case (Inl err)
      with Suc.prems lt Inr
      have "extract_loop e fuel conv (s\<lparr>requests := requests s @ [?q]\<rparr>) = (Some (Inr c), s')"
        by (simp add: client_create_def)
      then show ?thesis by (rule Suc.IH)
    next
      case (Inr c')
      with Suc.prems lt \<open>create e (requests s) ?q = Inr r\<close>
      have "c' = c" "s' = s\<lparr>requests := requests s @ [?q]\<rparr>"
        by (simp_all add: client_create_def)
      with Inr \<open>create e (requests s) ?q = Inr r\<close> show ?thesis by auto
    qed
  qed
qed

lemma extract_loop_log_extends:
  "\<exists>rest. requests (snd (extract_loop e fuel conv s)) = requests s @ rest"
proof (induction fuel arbitrary: s)
  case 0
  show ?case by simp
next
  case (Suc fuel)
  let ?q = "extract_request e conv"
  let ?s' = "s\<lparr>requests := requests s @ [?q]\<rparr>"
  from Suc [of ?s'] obtain rest where
    "requests (snd (extract_loop e fuel conv ?s')) = requests s @ ?q # rest"
    by auto
  then show ?case
    by (auto simp: client_create_def split: sum.splits)
qed

lemma extract_loop_issues_request:
  assumes "num_try s < 3"
  shows "\<exists>rest. requests (snd (extract_loop e (Suc m) conv s)) =
           requests s @ extract_request e conv # rest"
proof -
  let ?q = "extract_request e conv"
  let ?s' = "s\<lparr>requests := requests s @ [?q]\<rparr>"
  from extract_loop_log_extends [of e m conv ?s'] obtain rest where
    "requests (snd (extract_loop e m conv ?s')) = requests s @ ?q # rest"
    by auto
  with assms show ?thesis
    by (auto simp: client_create_def split: sum.splits)
qed

lemma extract_loop_after_rejected:
  assumes "num_try s < 3"
    and "\<forall>j<k. \<exists>r. create e (requests s @ replicate j (extract_request e conv)) (extract_request e conv) = Inr r
            \<and> isl (Ideas_model_validate_json e r)"
  shows "extract_loop e (k + m) conv s =
           extract_loop e m conv (s\<lparr>requests := requests s @ replicate k (extract_request e conv)\<rparr>)"
  using assms
proof (induction k arbitrary: s)
  case 0
  then show ?case by simp
next
  case (Suc k)
  let ?q = "extract_request e conv"
  let ?s' = "s\<lparr>requests := requests s @ [?q]\<rparr>"
  from Suc.prems(2) obtain r0 where r0: "create e (requests s) ?q = Inr r0"
      "isl (Ideas_model_validate_json e r0)"
    by (metis append_Nil2 replicate_0 zero_less_Suc)
  have step: "extract_loop e (Suc (k + m)) conv s = extract_loop e (k + m) conv ?s'"
    using Suc.prems(1) r0 by (auto simp: client_create_def isl_def)
  have shift: "requests ?s' @ replicate j ?q = requests s @ replicate (Suc j) ?q" for j
    by simp
  have a1: "num_try ?s' < 3" using Suc.prems(1) by simp
  have a2: "\<forall>j<k. \<exists>r. create e (requests ?s' @ replicate j ?q) ?q = Inr r
            \<and> isl (Ideas_model_validate_json e r)"
    unfolding shift using Suc.prems(2) by auto
  have "extract_loop e (k + m) conv ?s' =
      extract_loop e m conv (?s'\<lparr>requests := requests ?s' @ replicate k ?q\<rparr>)"
    using Suc.IH [OF a1 a2] .
  then show ?case using step by simp
qed

section \<open>The whole call\<close>

lemma brainstorm_ideas_unfold:
  assumes "Audience_model_validate (kwargs s) = Inr a"
    and "create e (requests s) (brainstorm_request e (kwargs s)) = Inr conv"
  shows "brainstorm_ideas e fuel s =
           extract_loop e fuel conv
             (s\<lparr>num_try := 0, requests := log_after e s conv 0\<rparr>)"
proof -
  have "s\<lparr>requests := requests s @ [brainstorm_request e (kwargs s)], num_try := 0\<rparr>
      = s\<lparr>num_try := 0, requests := log_after e s conv 0\<rparr>"
    by (rule state.equality) (simp_all add: log_after_def)
  then show ?thesis
    using assms by (simp add: brainstorm_ideas_def client_create_def)
qed

lemma log_after_replicate:
  "requests (s\<lparr>num_try := 0, requests := log_after e s conv 0\<rparr>) @ replicate k (extract_request e conv)
     = log_after e s conv k"
  by (simp add: log_after_def)

lemma brainstorm_ideas_first_valid:
  assumes "Audience_model_validate (kwargs s) = Inr a"
    and "create e (requests s) (brainstorm_request e (kwargs s)) = Inr conv"
    and "\<forall>j<k. \<exists>r. create e (log_after e s conv j) (extract_request e conv) = Inr r
            \<and> isl (Ideas_model_validate_json e r)"
    and "create e (log_after e s conv k) (extract_request e conv) = Inr r"
    and "Ideas_model_validate_json e r = Inr c"
    and "k < fuel"
  shows "brainstorm_ideas e fuel s =
           (Some (Inr c), s\<lparr>num_try := 0, requests := log_after e s conv (Suc k)\<rparr>)"
proof -
  let ?s0 = "s\<lparr>num_try := 0, requests := log_after e s conv 0\<rparr>"
  have "extract_loop e fuel conv ?s0 =
      (Some (Inr c), ?s0\<lparr>requests := requests ?s0 @ replicate (Suc k) (extract_request e conv)\<rparr>)"
  proof (rule extract_loop_first_valid [OF _ _ _ assms(5,6)])
    show "num_try ?s0 < 3" by simp
    show "\<forall>j<k. \<exists>r. create e (requests ?s0 @ replicate j (extract_request e conv))
              (extract_request e conv) = Inr r \<and> isl (Ideas_model_validate_json e r)"
      unfolding log_after_replicate using assms(3) .
    show "create e (requests ?s0 @ replicate k (extract_request e conv)) (extract_request e conv) = Inr r"
      unfolding log_after_replicate using assms(4) .
  qed
  then show ?thesis
    unfolding brainstorm_ideas_unfold [OF assms(1,2)] log_after_replicate by simp
qed

lemma brainstorm_ideas_all_rejected:
  assumes "Audience_model_validate (kwargs s) = Inr a"
    and "create e (requests s) (brainstorm_request e (kwargs s)) = Inr conv"
    and "\<forall>j<n. \<exists>r. create e (log_after e s conv j) (extract_request e conv) = Inr r
            \<and> isl (Ideas_model_validate_json e r)"
  shows "brainstorm_ideas e n s = (None, s\<lparr>num_try := 0, requests := log_after e s conv n\<rparr>)"
proof -
  let ?s0 = "s\<lparr>num_try := 0, requests := log_after e s conv 0\<rparr>"
  have "extract_loop e n conv ?s0 =
      (None, ?s0\<lparr>requests := requests ?s0 @ replicate n (extract_request e conv)\<rparr>)"
  proof (rule extract_loop_all_rejected)
    show "num_try ?s0 < 3" by simp
    show "\<forall>j<n. \<exists>r. create e (requests ?s0 @ replicate j (extract_request e conv))
              (extract_request e conv) = Inr r \<and> isl (Ideas_model_validate_json e r)"
      unfolding log_after_replicate using assms(3) .
  qed
  then show ?thesis
    unfolding brainstorm_ideas_unfold [OF assms(1,2)] log_after_replicate by simp
qed

lemma brainstorm_ideas_never_Exception:
  "fst (brainstorm_ideas e fuel s) \<noteq> Some (Inl Exception)"
proof (cases "Audience_model_validate (kwargs s)")
  case (Inl err)
  then have "err = ValidationError" by (rule Audience_validate_error)
  with Inl show ?thesis by (simp add: brainstorm_ideas_def)
next
  case (Inr a)
  show ?thesis
  proof (cases "create e (requests s) (brainstorm_request e (kwargs s))")
    case (Inl msg)
    with Inr show ?thesis by (simp add: brainstorm_ideas_def client_create_def)
  next
    case (Inr conv)
    show ?thesis
      unfolding brainstorm_ideas_unfold [OF \<open>Audience_model_validate (kwargs s) = Inr a\<close> Inr]
      by (rule extract_loop_no_Exception) simp
  qed
qed

lemma brainstorm_ideas_success:
  assumes "brainstorm_ideas e fuel s = (Some (Inr c), s')"
  shows "\<exists>conv. extract_loop e fuel conv
            (s\<lparr>num_try := 0, requests := log_after e s conv 0\<rparr>) = (Some (Inr c), s')"
proof (cases "Audience_model_validate (kwargs s)")
  case (Inl err)
  with assms show ?thesis by (simp add: brainstorm_ideas_def)
next
  case (Inr a)
  show ?thesis
  proof (cases "create e (requests s) (brainstorm_request e (kwargs s))")
    case (Inl msg)
    with Inr assms show ?thesis by (simp add: brainstorm_ideas_def client_create_def)
  next
    case (Inr conv)
    with assms brainstorm_ideas_unfold [OF \<open>Audience_model_validate (kwargs s) = Inr a\<close> Inr]
    show ?thesis by auto
  qed
qed

lemma brainstorm_ideas_kwargs: "kwargs (snd (brainstorm_ideas e fuel s)) = kwargs s"
  by (auto simp: brainstorm_ideas_def client_create_def extract_loop_frame
        split: sum.splits)

lemma brainstorm_ideas_next_request:
  assumes "Audience_model_validate (kwargs s) = Inr a"
    and "create e (requests s) (brainstorm_request e (kwargs s)) = Inr conv"
    and "\<forall>j<k. \<exists>r. create e (log_after e s conv j) (extract_request e conv) = Inr r
            \<and> isl (Ideas_model_validate_json e r)"
    and "k < fuel"
  shows "\<exists>rest. requests (snd (brainstorm_ideas e fuel s)) = log_after e s conv (Suc k) @ rest"
proof -
  let ?q = "extract_request e conv"
  let ?s0 = "s\<lparr>num_try := 0, requests := log_after e s conv 0\<rparr>"
  let ?sk = "?s0\<lparr>requests := requests ?s0 @ replicate k ?q\<rparr>"
  from assms(4) obtain m where fuel: "fuel = k + Suc m"
    by (metis add_Suc_right less_imp_Suc_add)
  have eq1: "extract_loop e (k + Suc m) conv ?s0 = extract_loop e (Suc m) conv ?sk"
  proof (rule extract_loop_after_rejected)
    show "num_try ?s0 < 3" by simp
    show "\<forall>j<k. \<exists>r. create e (requests ?s0 @ replicate j ?q) ?q = Inr r
              \<and> isl (Ideas_model_validate_json e r)"
      unfolding log_after_replicate using assms(3) .
  qed
  have "num_try ?sk < 3" by simp
  from extract_loop_issues_request [OF this, of e m conv] obtain rest where
    eq2: "requests (snd (extract_loop e (Suc m) conv ?sk)) = requests ?sk @ ?q # rest"
    by blast
  have eq3: "requests ?sk @ ?q # rest = log_after e s conv (Suc k) @ rest"
    by (simp add: log_after_def replicate_append_same)
  have "requests (snd (brainstorm_ideas e fuel s)) = log_after e s conv (Suc k) @ rest"
    by (simp only: brainstorm_ideas_unfold [OF assms(1,2)] fuel eq1 eq2 eq3)
  then show ?thesis ..
qed

section \<open>The scenario texts and the scripted clients\<close>

lemma loads_valid_text:
  "json_loads valid_text = Some (Ideas_model_dump \<lparr>ideas = [idea_TDSP]\<rparr>)"
  unfolding valid_text_def Ideas_model_dump_def Idea_model_dump_def idea_TDSP_def
  by (simp add: json_loads_def skip_ws_def is_ws_def unescape_def dict_of_def)

lemma loads_not_a_list_text:
  "json_loads not_a_list_text = Some (JObj [(''ideas'', JStr ''not-a-list'')])"
  unfolding not_a_list_text_def
  by (simp add: json_loads_def skip_ws_def is_ws_def unescape_def dict_of_def)

lemma loads_empty_fields_text:
  "json_loads empty_fields_text =
     Some (Ideas_model_dump \<lparr>ideas = [\<lparr>title = [], detail = [], style = [], procedure = []\<rparr>]\<rparr>)"
  unfolding empty_fields_text_def Ideas_model_dump_def Idea_model_dump_def
  by (simp add: json_loads_def skip_ws_def is_ws_def unescape_def dict_of_def)

lemma loads_extra_fields_text:
  "json_loads extra_fields_text =
     Some (JObj [(''note'', JNum ''1''),
                 (''ideas'', JArr [JObj [(''title'', JStr ''T''), (''mood'', JNull), (''detail'', JStr ''D''),
                                         (''style'', JStr ''S''), (''procedure'', JStr ''P'')]]),
                 (''more'', JArr [])])"
  unfolding extra_fields_text_def
  by (simp add: json_loads_def skip_ws_def is_ws_def unescape_def dict_of_def
        number_end_def number_int_def number_frac_def number_exp_def digits1_def is_digit_def)

lemma loads_never_json: "json_loads ''Sure! Here are some ideas.'' = None"
  by (simp add: json_loads_def skip_ws_def is_ws_def unescape_def dict_of_def
        number_end_def number_int_def number_frac_def number_exp_def digits1_def is_digit_def)

lemma audience_scenario: 
  "Audience_model_validate (kwargs scenario_state) =
     Inr \<lparr>age = ''18-22'', attributes = [''energetic'', ''undergraduate'']\<rparr>"
  by (simp add: scenario_state_def Audience_model_dump_def Audience_model_validate_def str_field_def)

lemma mock_env_sel [simp]:
  "create (mock_env answers rest) = scripted answers rest"
  "loads (mock_env answers rest) = json_loads"
  by (simp_all add: mock_env_def)

lemma scripted_log_after [simp]:
  "scripted answers rest (log_after e scenario_state conv k) req =
     (if Suc k < length answers then answers ! Suc k else rest)"
  by (simp add: scripted_def log_after_def scenario_state_def)

lemma scripted_first [simp]:
  "scripted (x # answers) rest (requests scenario_state) req = x"
  by (simp add: scripted_def scenario_state_def)

lemma validate_json_valid_text:
  "Ideas_model_validate_json (mock_env answers rest) (Some valid_text) = Inr \<lparr>ideas = [idea_TDSP]\<rparr>"
  by (simp add: Ideas_model_validate_json_def loads_valid_text validate_dump)

lemma validate_json_not_a_list:
  "Ideas_model_validate_json (mock_env answers rest) (Some not_a_list_text) = Inl ValidationError"
  by (simp add: Ideas_model_validate_json_def loads_not_a_list_text)

lemma validate_json_empty_fields:
  "Ideas_model_validate_json (mock_env answers rest) (Some empty_fields_text) =
     Inr \<lparr>ideas = [\<lparr>title = [], detail = [], style = [], procedure = []\<rparr>]\<rparr>"
  by (simp add: Ideas_model_validate_json_def loads_empty_fields_text validate_dump)

lemma validate_json_never_json:
  "Ideas_model_validate_json (mock_env answers rest) (Some ''Sure! Here are some ideas.'') =
     Inl ValidationError"
  by (simp add: Ideas_model_validate_json_def loads_never_json)

lemma validate_extra_fields_text:
  "Ideas_model_validate (Ideas_drop_extra (the (json_loads extra_fields_text))) =
     Inr \<lparr>ideas = [idea_TDSP]\<rparr>"
  by (simp add: loads_extra_fields_text declared_only_def str_field_def idea_TDSP_def)

lemma scenarioA_run:
  "brainstorm_ideas scenarioA_env 1 scenario_state =
     (Some (Inr \<lparr>ideas = [idea_TDSP]\<rparr>),
      scenario_state\<lparr>num_try := 0, requests := log_after scenarioA_env scenario_state (Some ''prose'') 1\<rparr>)"
  using brainstorm_ideas_first_valid [where e = scenarioA_env and k = 0 and fuel = 1
      and r = "Some valid_text", OF audience_scenario]
  by (simp add: scenarioA_env_def validate_json_valid_text)

section \<open>Properties of \<open>brainstorm_ideas\<close>\<close>

text \<open>
  C1.  The specification asks for exactly three extraction attempts and then the
  exhaustion error when every extraction response fails validation.  The function
  does not do that.  With the client of Scenario B, whose every extraction answer is
  \<open>{"ideas": "not-a-list"}\<close>, the loop is still running after any number \<open>fuel\<close> of
  iterations, having sent \<open>fuel\<close> extraction requests; and whatever the client, the
  decoder and the arguments are, the function never ends in the bare \<open>Exception()\<close>
  of its last line, because \<open>num_try\<close> stays at 0.
\<close>

theorem retry_bound_not_enforced:
  "brainstorm_ideas scenarioB_env fuel scenario_state =
     (None, scenario_state\<lparr>num_try := 0,
        requests := log_after scenarioB_env scenario_state (Some ''prose'') fuel\<rparr>) \<and>
   fst (brainstorm_ideas e n s) \<noteq> Some (Inl Exception)"
proof
  show "brainstorm_ideas scenarioB_env fuel scenario_state =
     (None, scenario_state\<lparr>num_try := 0,
        requests := log_after scenarioB_env scenario_state (Some ''prose'') fuel\<rparr>)"
    unfolding scenarioB_env_def
    by (rule brainstorm_ideas_all_rejected [OF audience_scenario])
       (simp_all add: validate_json_not_a_list)
  show "fst (brainstorm_ideas e n s) \<noteq> Some (Inl Exception)"
    by (rule brainstorm_ideas_never_Exception)
qed

text \<open>
  C2.  The specification asks that the retry loop end after at most three extraction
  attempts whatever the client answers.  The function does not: when the audience is
  valid, the brainstorm call answers, and every extraction answer is rejected, then
  for every bound \<open>fuel\<close> on the iterations the loop has not returned and has sent
  exactly \<open>fuel\<close> extraction requests, so their number has no bound.
\<close>

theorem extraction_attempts_unbounded:
  assumes "Audience_model_validate (kwargs s) = Inr a"
    and "create e (requests s) (brainstorm_request e (kwargs s)) = Inr conv"
    and "\<forall>j. \<exists>r. create e (log_after e s conv j) (extract_request e conv) = Inr r \<and>
           isl (Ideas_model_validate_json e r)"
  shows "fst (brainstorm_ideas e fuel s) = None \<and>
         requests (snd (brainstorm_ideas e fuel s)) =
           requests s @ brainstorm_request e (kwargs s) # replicate fuel (extract_request e conv)"
proof -
  have "brainstorm_ideas e fuel s =
      (None, s\<lparr>num_try := 0, requests := log_after e s conv fuel\<rparr>)"
    using assms(3) by (intro brainstorm_ideas_all_rejected [OF assms(1,2)]) blast
  then show ?thesis by (simp add: log_after_def)
qed

theorem extraction_attempts_unbounded_witness:
  "fst (brainstorm_ideas never_json_env 7 scenario_state) = None \<and>
   length (requests (snd (brainstorm_ideas never_json_env 7 scenario_state))) = 8"
proof -
  have c: "create never_json_env (requests scenario_state)
      (brainstorm_request never_json_env (kwargs scenario_state)) = Inr (Some ''prose'')"
    by (simp add: never_json_env_def)
  have r: "\<forall>j. \<exists>r. create never_json_env (log_after never_json_env scenario_state (Some ''prose'') j)
             (extract_request never_json_env (Some ''prose'')) = Inr r \<and>
           isl (Ideas_model_validate_json never_json_env r)"
    by (simp add: never_json_env_def validate_json_never_json)
  show ?thesis
    using extraction_attempts_unbounded [OF audience_scenario c r, of 7]
    by (simp add: scenario_state_def)
qed

text \<open>
  C3.  Early success.  When the first \<open>k\<close> extraction answers are rejected and the
  next one validates to the collection \<open>c\<close>, the function returns \<open>c\<close>, and the client
  has then received the brainstorm request and exactly \<open>k + 1\<close> extraction requests:
  none is sent after the first valid answer, however many iterations the loop would
  still be allowed.  With \<open>k = 1\<close>: a failure on attempt 1 and a valid answer on
  attempt 2 give the result after exactly two extraction calls, never a third.
\<close>

theorem early_success_returns_immediately:
  assumes "Audience_model_validate (kwargs s) = Inr a"
    and "create e (requests s) (brainstorm_request e (kwargs s)) = Inr conv"
    and "\<forall>j<k. \<exists>r. create e (log_after e s conv j) (extract_request e conv) = Inr r
            \<and> isl (Ideas_model_validate_json e r)"
    and "create e (log_after e s conv k) (extract_request e conv) = Inr r"
    and "Ideas_model_validate_json e r = Inr c"
    and "k < fuel"
  shows "fst (brainstorm_ideas e fuel s) = Some (Inr c) \<and>
         requests (snd (brainstorm_ideas e fuel s)) =
           requests s @ brainstorm_request e (kwargs s) # replicate (Suc k) (extract_request e conv)"
  using brainstorm_ideas_first_valid [OF assms] by (simp add: log_after_def)

theorem early_success_returns_immediately_witness:
  "fst (brainstorm_ideas early_success_env 3 scenario_state) = Some (Inr \<lparr>ideas = [idea_TDSP]\<rparr>) \<and>
   requests (snd (brainstorm_ideas early_success_env 3 scenario_state)) =
     [brainstorm_request early_success_env (kwargs scenario_state),
      extract_request early_success_env (Some ''prose''),
      extract_request early_success_env (Some ''prose'')]"
proof -
  have c: "create early_success_env (requests scenario_state)
      (brainstorm_request early_success_env (kwargs scenario_state)) = Inr (Some ''prose'')"
    by (simp add: early_success_env_def)
  have r1: "\<forall>j<1. \<exists>r. create early_success_env
        (log_after early_success_env scenario_state (Some ''prose'') j)
        (extract_request early_success_env (Some ''prose'')) = Inr r
            \<and> isl (Ideas_model_validate_json early_success_env r)"
    by (simp add: early_success_env_def validate_json_not_a_list)
  have r2: "create early_success_env (log_after early_success_env scenario_state (Some ''prose'') 1)
        (extract_request early_success_env (Some ''prose'')) = Inr (Some valid_text)"
    by (simp add: early_success_env_def)
  have v: "Ideas_model_validate_json early_success_env (Some valid_text) = Inr \<lparr>ideas = [idea_TDSP]\<rparr>"
    by (simp add: early_success_env_def validate_json_valid_text)
  have "requests scenario_state = []" by (simp add: scenario_state_def)
  then show ?thesis
    using early_success_returns_immediately [OF audience_scenario c r1 r2 v, of 3]
    by (simp add: numeral_2_eq_2)
qed

text \<open>
  C4.  A response text that decodes to an object whose \<open>ideas\<close> member is an array
  of objects, each carrying \<open>title\<close>, \<open>detail\<close>, \<open>style\<close> and \<open>procedure\<close> as
  strings, is returned as the collection of exactly those strings, item by item and in
  order: no field value is changed.  (The answers before it, if any, were rejected.)
  Its instance below is Scenario A: the single idea T, D, S, P on the first attempt.
\<close>

theorem valid_response_fields_match:
  assumes "Audience_model_validate (kwargs s) = Inr a"
    and "create e (requests s) (brainstorm_request e (kwargs s)) = Inr conv"
    and "\<forall>j<k. \<exists>r. create e (log_after e s conv j) (extract_request e conv) = Inr r
            \<and> isl (Ideas_model_validate_json e r)"
    and "create e (log_after e s conv k) (extract_request e conv) = Inr (Some text)"
    and "loads e text = Some (JObj members)"
    and "map_of members ''ideas'' = Some (JArr items)"
    and "list_all2 has_fields items ids"
    and "k < fuel"
  shows "fst (brainstorm_ideas e fuel s) = Some (Inr \<lparr>ideas = ids\<rparr>)"
proof -
  have "Ideas_model_validate_json e (Some text) = Inr \<lparr>ideas = ids\<rparr>"
    unfolding validate_json_iff using assms(5-7) by simp
  from brainstorm_ideas_first_valid [OF assms(1-4) this assms(8)]
  show ?thesis by simp
qed

theorem valid_response_fields_match_witness:
  "fst (brainstorm_ideas scenarioA_env 1 scenario_state) =
     Some (Inr \<lparr>ideas = [\<lparr>title = ''T'', detail = ''D'', style = ''S'', procedure = ''P''\<rparr>]\<rparr>)"
proof -
  let ?item = "Idea_model_dump idea_TDSP"
  have c: "create scenarioA_env (requests scenario_state)
      (brainstorm_request scenarioA_env (kwargs scenario_state)) = Inr (Some ''prose'')"
    by (simp add: scenarioA_env_def)
  have r0: "\<forall>j<0. \<exists>r. create scenarioA_env
        (log_after scenarioA_env scenario_state (Some ''prose'') j)
        (extract_request scenarioA_env (Some ''prose'')) = Inr r
            \<and> isl (Ideas_model_validate_json scenarioA_env r)"
    by simp
  have r1: "create scenarioA_env (log_after scenarioA_env scenario_state (Some ''prose'') 0)
        (extract_request scenarioA_env (Some ''prose'')) = Inr (Some valid_text)"
    by (simp add: scenarioA_env_def)
  have l: "loads scenarioA_env valid_text = Some (JObj [(''ideas'', JArr [?item])])"
    by (simp add: scenarioA_env_def loads_valid_text Ideas_model_dump_def)
  have m: "map_of [(''ideas'', JArr [?item])] ''ideas'' = Some (JArr [?item])"
    by simp
  have f: "list_all2 has_fields [?item] [idea_TDSP]"
    by (simp add: has_fields_dump)
  show ?thesis
    using valid_response_fields_match [OF audience_scenario c r0 r1 l m f, of 1]
    by (simp add: idea_TDSP_def)
qed

text \<open>
  C5.  The keyword arguments the function was called with are the same after the call
  as before it, in every run and at every point where a run is cut off.  When they
  are the dump of an audience \<open>a\<close>, they still validate to \<open>a\<close> afterwards: the same
  \<open>age\<close> and the same \<open>attributes\<close> in the same order.
\<close>

theorem audience_unchanged:
  "kwargs (snd (brainstorm_ideas e fuel s)) = kwargs s \<and>
   Audience_model_validate
     (kwargs (snd (brainstorm_ideas e fuel (s\<lparr>kwargs := Audience_model_dump a\<rparr>)))) = Inr a"
  by (simp add: brainstorm_ideas_kwargs Audience_validate_dump)

theorem audience_unchanged_witness:
  "kwargs (snd (brainstorm_ideas early_success_env 3 scenario_state)) =
     [(''age'', JStr ''18-22''), (''attributes'', JArr [JStr ''energetic'', JStr ''undergraduate''])]"
  using audience_unchanged [of early_success_env 3 scenario_state]
  by (simp add: scenario_state_def Audience_model_dump_def)

text \<open>
  C6.  Whenever the function returns a collection, the answer to the last request the
  client received is a text that decodes to an object whose \<open>ideas\<close> member is an
  array, and the returned ideas are that array item by item: every item of the
  response carries all four fields as strings and is in the result, so no part of a
  response is ever returned without the rest.
\<close>

theorem returned_ideas_satisfy_schema:
  assumes "brainstorm_ideas e fuel s = (Some (Inr c), s')"
  shows "\<exists>text members items.
           create e (butlast (requests s')) (last (requests s')) = Inr (Some text) \<and>
           loads e text = Some (JObj members) \<and>
           map_of members ''ideas'' = Some (JArr items) \<and>
           list_all2 has_fields items (ideas c)"
proof -
  from brainstorm_ideas_success [OF assms] obtain conv where
    "extract_loop e fuel conv (s\<lparr>num_try := 0, requests := log_after e s conv 0\<rparr>) = (Some (Inr c), s')"
    by blast
  from extract_loop_success [OF this] obtain r where
    r: "last (requests s') = extract_request e conv"
       "create e (butlast (requests s')) (extract_request e conv) = Inr r"
       "Ideas_model_validate_json e r = Inr c"
    by blast
  from r(3) obtain t members items where
    "r = Some t" "loads e t = Some (JObj members)"
    "map_of members ''ideas'' = Some (JArr items)" "list_all2 has_fields items (ideas c)"
    unfolding validate_json_iff by blast
  with r(1,2) show ?thesis by auto
qed

theorem returned_ideas_satisfy_schema_witness:
  "\<exists>text members items.
     create scenarioA_env
       (butlast (log_after scenarioA_env scenario_state (Some ''prose'') 1))
       (last (log_after scenarioA_env scenario_state (Some ''prose'') 1)) = Inr (Some text) \<and>
     loads scenarioA_env text = Some (JObj members) \<and>
     map_of members ''ideas'' = Some (JArr items) \<and>
     list_all2 has_fields items [idea_TDSP]"
  using returned_ideas_satisfy_schema [OF scenarioA_run] by simp

text \<open>
  C7, as the specification states it, asks that a response whose four fields are
  empty strings be rejected.  The models declare the fields as plain \<open>str\<close>, with no
  constraint on the length, and the function returns such a response: here the answer
  \<open>{"ideas":[{"title":"","detail":"","style":"","procedure":""}]}\<close> on the first
  attempt comes back as an idea with four empty fields.
\<close>

theorem nonempty_fields_counterexample:
  "fst (brainstorm_ideas empty_fields_env 1 scenario_state) =
     Some (Inr \<lparr>ideas = [\<lparr>title = [], detail = [], style = [], procedure = []\<rparr>]\<rparr>)"
  using brainstorm_ideas_first_valid [where e = empty_fields_env and k = 0 and fuel = 1
      and r = "Some empty_fields_text", OF audience_scenario]
  by (simp add: empty_fields_env_def validate_json_empty_fields)

text \<open>
  C7, amended.  A response text is accepted with the collection \<open>c\<close> exactly when it
  decodes to an object whose \<open>ideas\<close> member is an array of objects that carry
  \<open>title\<close>, \<open>detail\<close>, \<open>style\<close> and \<open>procedure\<close> as the strings of the ideas of
  \<open>c\<close>.  The condition asks for strings and nothing more: an empty string is a
  string, and is accepted as it is.
\<close>

theorem accepted_iff_fields_are_strings:
  "Ideas_model_validate_json e (Some text) = Inr c \<longleftrightarrow>
     (\<exists>members items. loads e text = Some (JObj members) \<and>
        map_of members ''ideas'' = Some (JArr items) \<and> list_all2 has_fields items (ideas c))"
  unfolding validate_json_iff by simp

theorem accepted_iff_fields_are_strings_witness:
  "Ideas_model_validate_json empty_fields_env (Some empty_fields_text) =
     Inr \<lparr>ideas = [\<lparr>title = [], detail = [], style = [], procedure = []\<rparr>]\<rparr>"
proof -
  let ?i = "\<lparr>title = [], detail = [], style = [], procedure = []\<rparr>"
  have "loads empty_fields_env empty_fields_text = Some (JObj [(''ideas'', JArr [Idea_model_dump ?i])])"
    by (simp add: empty_fields_env_def loads_empty_fields_text Ideas_model_dump_def)
  moreover have "list_all2 has_fields [Idea_model_dump ?i] (ideas \<lparr>ideas = [?i]\<rparr>)"
    by (simp add: has_fields_dump)
  ultimately show ?thesis
    unfolding accepted_iff_fields_are_strings [of empty_fields_env empty_fields_text "\<lparr>ideas = [?i]\<rparr>"]
    by simp
qed

text \<open>
  C8.  When the first call on the client, the brainstorm call, raises, the function
  ends at once with that error: the client has received the brainstorm request and
  nothing else, so no extraction request is ever made.
\<close>

theorem transport_failure_propagates:
  assumes "Audience_model_validate (kwargs s) = Inr a"
    and "create e (requests s) (brainstorm_request e (kwargs s)) = Inl msg"
  shows "brainstorm_ideas e fuel s =
           (Some (Inl (TransportError msg)),
            s\<lparr>requests := requests s @ [brainstorm_request e (kwargs s)]\<rparr>)"
  using assms by (simp add: brainstorm_ideas_def client_create_def)

theorem transport_failure_propagates_witness:
  "fst (brainstorm_ideas scenarioC_env 3 scenario_state) =
     Some (Inl (TransportError ''connection error'')) \<and>
   requests (snd (brainstorm_ideas scenarioC_env 3 scenario_state)) =
     [brainstorm_request scenarioC_env (kwargs scenario_state)]"
proof -
  have c: "create scenarioC_env (requests scenario_state)
      (brainstorm_request scenarioC_env (kwargs scenario_state)) = Inl ''connection error''"
    by (simp add: scenarioC_env_def)
  have "requests scenario_state = []" by (simp add: scenario_state_def)
  then show ?thesis
    using transport_failure_propagates [OF audience_scenario c, of 3] by simp
qed

text \<open>
  C9.  A response that fails to parse or to validate is not an error of the call.
  Take a call on a valid audience whose brainstorm request is answered and whose
  first \<open>k\<close> extraction answers are rejected.  After \<open>k\<close> iterations the call has
  neither returned nor raised, and the client has received exactly those \<open>k\<close>
  extraction requests: the failures were absorbed.  When the loop runs on, the next
  extraction request follows at once: the client's log begins with the brainstorm
  request and \<open>k + 1\<close> extraction requests.  And however long the call runs, it never
  ends in \<open>ValidationError\<close>: the errors it can end in are the client's own and the
  bare \<open>Exception()\<close> of the last line.
\<close>

theorem validation_failures_absorbed:
  assumes "Audience_model_validate (kwargs s) = Inr a"
    and "create e (requests s) (brainstorm_request e (kwargs s)) = Inr conv"
    and "\<forall>j<k. \<exists>r. create e (log_after e s conv j) (extract_request e conv) = Inr r
            \<and> isl (Ideas_model_validate_json e r)"
  shows "brainstorm_ideas e k s = (None, s\<lparr>num_try := 0, requests := log_after e s conv k\<rparr>) \<and>
         (k < fuel \<longrightarrow>
            (\<exists>rest. requests (snd (brainstorm_ideas e fuel s)) = log_after e s conv (Suc k) @ rest)) \<and>
         fst (brainstorm_ideas e fuel s) \<noteq> Some (Inl ValidationError)"
proof (intro conjI impI)
  show "brainstorm_ideas e k s = (None, s\<lparr>num_try := 0, requests := log_after e s conv k\<rparr>)"
    by (rule brainstorm_ideas_all_rejected [OF assms])
  show "\<exists>rest. requests (snd (brainstorm_ideas e fuel s)) = log_after e s conv (Suc k) @ rest"
    if "k < fuel"
    by (rule brainstorm_ideas_next_request [OF assms that])
  show "fst (brainstorm_ideas e fuel s) \<noteq> Some (Inl ValidationError)"
    unfolding brainstorm_ideas_unfold [OF assms(1,2)]
    by (rule extract_loop_no_ValidationError)
qed

theorem validation_failures_absorbed_witness:
  "brainstorm_ideas early_success_env 1 scenario_state =
     (None, scenario_state\<lparr>num_try := 0,
        requests := log_after early_success_env scenario_state (Some ''prose'') 1\<rparr>) \<and>
   (\<exists>rest. requests (snd (brainstorm_ideas early_success_env 3 scenario_state)) =
      log_after early_success_env scenario_state (Some ''prose'') 2 @ rest) \<and>
   fst (brainstorm_ideas early_success_env 3 scenario_state) \<noteq> Some (Inl ValidationError)"
proof -
  have c: "create early_success_env (requests scenario_state)
      (brainstorm_request early_success_env (kwargs scenario_state)) = Inr (Some ''prose'')"
    by (simp add: early_success_env_def)
  have r1: "\<forall>j<1. \<exists>r. create early_success_env
        (log_after early_success_env scenario_state (Some ''prose'') j)
        (extract_request early_success_env (Some ''prose'')) = Inr r
            \<and> isl (Ideas_model_validate_json early_success_env r)"
    by (simp add: early_success_env_def validate_json_not_a_list)
  show ?thesis
    using validation_failures_absorbed [OF audience_scenario c r1, of 3]
    by (simp add: numeral_2_eq_2)
qed

text \<open>
  C10.  Members that the models do not declare do not count.  When the response
  decodes to a value that validates once its undeclared members are dropped, at the
  top level and inside each idea, the function returns that very collection on that
  attempt: the client receives no request after it, and the result holds the
  declared fields only.
\<close>

theorem extra_fields_ignored:
  assumes "Audience_model_validate (kwargs s) = Inr a"
    and "create e (requests s) (brainstorm_request e (kwargs s)) = Inr conv"
    and "\<forall>j<k. \<exists>r. create e (log_after e s conv j) (extract_request e conv) = Inr r
            \<and> isl (Ideas_model_validate_json e r)"
    and "create e (log_after e s conv k) (extract_request e conv) = Inr (Some text)"
    and "loads e text = Some v"
    and "Ideas_model_validate (Ideas_drop_extra v) = Inr c"
    and "k < fuel"
  shows "fst (brainstorm_ideas e fuel s) = Some (Inr c) \<and>
         requests (snd (brainstorm_ideas e fuel s)) =
           requests s @ brainstorm_request e (kwargs s) # replicate (Suc k) (extract_request e conv)"
proof -
  have "Ideas_model_validate_json e (Some text) = Inr c"
    using assms(5,6) by (simp add: Ideas_model_validate_json_def Ideas_drop_extra_validate)
  from brainstorm_ideas_first_valid [OF assms(1-4) this assms(7)]
  show ?thesis by (simp add: log_after_def)
qed

theorem extra_fields_ignored_witness:
  "fst (brainstorm_ideas extra_fields_env 1 scenario_state) = Some (Inr \<lparr>ideas = [idea_TDSP]\<rparr>) \<and>
   requests (snd (brainstorm_ideas extra_fields_env 1 scenario_state)) =
     [brainstorm_request extra_fields_env (kwargs scenario_state),
      extract_request extra_fields_env (Some ''prose'')]"
proof -
  have c: "create extra_fields_env (requests scenario_state)
      (brainstorm_request extra_fields_env (kwargs scenario_state)) = Inr (Some ''prose'')"
    by (simp add: extra_fields_env_def)
  have r0: "\<forall>j<0. \<exists>r. create extra_fields_env
        (log_after extra_fields_env scenario_state (Some ''prose'') j)
        (extract_request extra_fields_env (Some ''prose'')) = Inr r
            \<and> isl (Ideas_model_validate_json extra_fields_env r)"
    by simp
  have r1: "create extra_fields_env (log_after extra_fields_env scenario_state (Some ''prose'') 0)
        (extract_request extra_fields_env (Some ''prose'')) = Inr (Some extra_fields_text)"
    by (simp add: extra_fields_env_def)
  have l: "loads extra_fields_env extra_fields_text = Some (the (json_loads extra_fields_text))"
    by (simp add: extra_fields_env_def loads_extra_fields_text)
  have "requests scenario_state = []" by (simp add: scenario_state_def)
  then show ?thesis
    using extra_fields_ignored [OF audience_scenario c r0 r1 l validate_extra_fields_text, of 1]
    by simp
qed

end
